theory Spec2Isabelle
  imports Complex_Main
begin

section \<open>Exceptions\<close>

text \<open>
  Every exception the two modules can raise is a value.  \<open>JSONDecodeError\<close> is a
  subclass of \<open>ValueError\<close> in Python; the handlers that distinguish the two are
  written out where they occur.  \<open>RuntimeError\<close> stands for any other subclass of
  \<open>Exception\<close> raised by an external collaborator.
\<close>

datatype py_error =
    TypeError
  | ValueError
  | JSONDecodeError
  | KeyError
  | IndexError
  | ZeroDivisionError
  | OverflowError
  | RuntimeError

section \<open>Storage schema (database/ddl.py)\<close>

text \<open>
  The two ORM models.  A column declared with \<open>null=True\<close> is an \<open>option\<close>; every
  other column is NOT NULL.  \<open>channel\<close> and \<open>parent\<close> hold the raw foreign key value
  (columns \<open>ChannelId\<close> and \<open>ParentId\<close>).
\<close>

record Channel =
  claim_id :: string
  name :: string

record Comment =
  comment :: string
  channel :: "string option"
  comment_id :: string
  is_hidden :: bool
  claim_id :: string
  parent :: "string option"
  signature :: "string option"
  signing_ts :: "string option"
  timestamp :: int

text \<open>
  The store: the rows of the two tables.  \<open>Channel.claim_id\<close> is a primary key, so
  at most one channel row carries a given identifier.  The storage engine documents no
  order among rows with equal sort keys: \<open>tie_rank\<close> is the position it gives a row
  among such rows, and every property below holds whatever it is.
\<close>

record database =
  comments :: "Comment list"
  channels :: "Channel list"
  tie_rank :: "Comment \<Rightarrow> nat"

text \<open>A value of a result column; SQL NULL (Python \<open>None\<close>) is \<open>None :: val option\<close>.\<close>

datatype val = VText string | VInt int | VBool bool

type_synonym item = "(string \<times> val) list"

text \<open>
  The left outer join of a comment with \<open>Channel\<close> on \<open>ChannelId = ClaimId\<close>: the
  channel row when there is one, \<open>None\<close> (all channel columns NULL) otherwise.
\<close>

definition join_channel :: "database \<Rightarrow> Comment \<Rightarrow> Channel option" where
  "join_channel db r =
     (case channel r of
        None \<Rightarrow> None
      | Some c \<Rightarrow> find (\<lambda>ch. Channel.claim_id ch = c) (channels db))"

text \<open>
  The field registry \<open>FIELDS\<close>: logical name and the expression it selects, as a
  function of the comment row and its joined channel.  String concatenation with a
  NULL operand is NULL, so \<open>channel_url\<close> is NULL exactly when no channel is joined.
\<close>

definition FIELDS :: "(string \<times> (Comment \<Rightarrow> Channel option \<Rightarrow> val option)) list" where
  "FIELDS =
    [(''comment'', \<lambda>r c. Some (VText (comment r))),
     (''comment_id'', \<lambda>r c. Some (VText (comment_id r))),
     (''claim_id'', \<lambda>r c. Some (VText (claim_id r))),
     (''timestamp'', \<lambda>r c. Some (VInt (timestamp r))),
     (''signature'', \<lambda>r c. map_option VText (signature r)),
     (''signing_ts'', \<lambda>r c. map_option VText (signing_ts r)),
     (''is_hidden'', \<lambda>r c. Some (VBool (is_hidden r))),
     (''parent_id'', \<lambda>r c. map_option VText (parent r)),
     (''channel_id'', \<lambda>r c. map_option (\<lambda>ch. VText (Channel.claim_id ch)) c),
     (''channel_name'', \<lambda>r c. map_option (\<lambda>ch. VText (name ch)) c),
     (''channel_url'', \<lambda>r c.
        map_option (\<lambda>ch. VText (''lbry://'' @ name ch @ ''#'' @ Channel.claim_id ch)) c)]"

definition FIELDS_keys :: "string list" where
  "FIELDS_keys = map fst FIELDS"

text \<open>
  The columns of the model itself, which the ORM selects when \<open>Comment.select\<close> is
  called without any attribute; the keys are the model's field names.
\<close>

definition model_columns :: "(string \<times> (Comment \<Rightarrow> Channel option \<Rightarrow> val option)) list" where
  "model_columns =
    [(''comment'', \<lambda>r c. Some (VText (comment r))),
     (''channel'', \<lambda>r c. map_option VText (channel r)),
     (''comment_id'', \<lambda>r c. Some (VText (comment_id r))),
     (''is_hidden'', \<lambda>r c. Some (VBool (is_hidden r))),
     (''claim_id'', \<lambda>r c. Some (VText (claim_id r))),
     (''parent'', \<lambda>r c. map_option VText (parent r)),
     (''signature'', \<lambda>r c. map_option VText (signature r)),
     (''signing_ts'', \<lambda>r c. map_option VText (signing_ts r)),
     (''timestamp'', \<lambda>r c. Some (VInt (timestamp r)))]"

section \<open>Projection and pagination engine (database/ddl.py)\<close>

text \<open>
  \<open>str.lower\<close> on ASCII letters.  No character outside ASCII lower-cases to one of
  the letters of \<open>hidden\<close>, so the comparison below is not affected by the restriction.
\<close>

definition lower_char :: "char \<Rightarrow> char" where
  "lower_char c =
     (let n = (of_char c :: nat) in if 65 \<le> n \<and> n \<le> 90 then char_of (n + 32) else c)"

definition lower :: "string \<Rightarrow> string" where
  "lower s = map lower_char s"

text \<open>
  Lines 86 to 91: the surviving registry keys.  The exclusion list is subtracted when
  it is truthy (neither \<open>None\<close> nor empty), then the inclusion list is intersected
  when it is truthy.  The keys are kept in the order of the registry; the order of the
  keys of a dictionary is not observed by any property below.
\<close>

definition selected_fields :: "string list option \<Rightarrow> string list option \<Rightarrow> string list" where
  "selected_fields select_fields exclude_fields =
     (let fields' = FIELDS_keys;
          fields' = (case exclude_fields of
                       Some ex \<Rightarrow> if ex \<noteq> [] then filter (\<lambda>k. k \<notin> set ex) fields' else fields'
                     | None \<Rightarrow> fields');
          fields' = (case select_fields of
                       Some sel \<Rightarrow> if sel \<noteq> [] then filter (\<lambda>k. k \<in> set sel) fields' else fields'
                     | None \<Rightarrow> fields')
      in fields')"

text \<open>
  \<open>attributes = [FIELDS[field] for field in fields]\<close> and \<open>Comment.select(*attributes)\<close>:
  the selected columns with the keys their rows carry.  Every key comes from the
  registry, so the lookup cannot fail.  Called without any attribute, \<open>select\<close> takes
  the columns of the model.
\<close>

definition select_columns :: "string list \<Rightarrow> (string \<times> (Comment \<Rightarrow> Channel option \<Rightarrow> val option)) list" where
  "select_columns fields' =
     (if fields' = [] then model_columns
      else filter (\<lambda>(k, e). k \<in> set fields') FIELDS)"

text \<open>One row of \<open>query.dicts()\<close>: every selected key with its value, NULL included.\<close>

definition row_dict :: "database \<Rightarrow> string list \<Rightarrow> Comment \<Rightarrow> (string \<times> val option) list" where
  "row_dict db fields' r = map (\<lambda>(k, e). (k, e r (join_channel db r))) (select_columns fields')"

text \<open>\<open>clean\<close>: drop the keys whose value is \<open>None\<close>.\<close>

definition clean :: "(string \<times> val option) list \<Rightarrow> item" where
  "clean thing = concat (map (\<lambda>(k, v). case v of None \<Rightarrow> [] | Some x \<Rightarrow> [(k, x)]) thing)"

text \<open>
  The \<open>where\<close> clauses of lines 95 to 108, in the order of the source.  A comparison
  with a NULL column selects nothing, which \<open>parent r = Some p\<close> expresses.
  \<open>Comment.ParentId\<close> is the accessor the ORM binds under the column name of the
  foreign key \<open>parent\<close>.  Each \<open>if\<close> tests the truthiness of its argument: \<open>None\<close>
  and the empty string add no clause.  \<open>expressions\<close> is any further predicate on
  comment rows; an expression object is always truthy.
\<close>

definition where_clauses ::
  "string option \<Rightarrow> string option \<Rightarrow> bool \<Rightarrow> string option \<Rightarrow> (Comment \<Rightarrow> bool) option
     \<Rightarrow> Comment list \<Rightarrow> Comment list" where
  "where_clauses claim_id' parent_id top_level exclude_mode expressions query =
     (let query = (case claim_id' of
                     Some c \<Rightarrow>
                       if c \<noteq> [] then
                         (let q = filter (\<lambda>r. claim_id r = c) query
                          in if top_level then filter (\<lambda>r. parent r = None) q else q)
                       else query
                   | None \<Rightarrow> query);
          query = (case parent_id of
                     Some p \<Rightarrow> if p \<noteq> [] then filter (\<lambda>r. parent r = Some p) query else query
                   | None \<Rightarrow> query);
          query = (case exclude_mode of
                     Some m \<Rightarrow>
                       if m \<noteq> [] then
                         (let show_hidden = (lower m = ''hidden'')
                          in filter (\<lambda>r. is_hidden r = show_hidden) query)
                       else query
                   | None \<Rightarrow> query);
          query = (case expressions of Some e \<Rightarrow> filter e query | None \<Rightarrow> query)
      in query)"

text \<open>
  \<open>order_by(Comment.timestamp.desc())\<close>: newest first; rows with equal timestamps
  come in the order the storage engine gives them (\<open>tie_rank\<close>).  Both sorts are
  stable, so the second keeps the order of the first among equal timestamps.
\<close>

definition order_by_timestamp_desc :: "database \<Rightarrow> Comment list \<Rightarrow> Comment list" where
  "order_by_timestamp_desc db query =
     sort_key (\<lambda>r. - timestamp r) (sort_key (tie_rank db) query)"

text \<open>
  The integers the storage engine binds as a query parameter: signed, 64 bits.  Binding
  any other integer raises \<open>OverflowError\<close>.
\<close>

definition sql_int :: "int \<Rightarrow> bool" where
  "sql_int v = (- (2 ^ 63) \<le> v \<and> v < 2 ^ 63)"

text \<open>
  The OFFSET of \<open>paginate(page, page_size)\<close>: \<open>(page - 1) * page_size\<close> for a
  positive page, \<open>page * page_size\<close> otherwise.
\<close>

definition page_offset :: "int \<Rightarrow> int \<Rightarrow> int" where
  "page_offset page' paginate_by =
     (let page' = (if page' > 0 then page' - 1 else page') in page' * paginate_by)"

text \<open>
  \<open>paginate(page, page_size)\<close> and the execution of the paginated query: LIMIT
  \<open>page_size\<close> OFFSET \<open>page_offset\<close>, both bound as parameters, so the query raises
  \<open>OverflowError\<close> when one of them is not a 64-bit integer.  The storage engine
  reads a negative OFFSET as zero and a negative LIMIT as no limit.
\<close>

definition paginate :: "int \<Rightarrow> int \<Rightarrow> 'a list \<Rightarrow> py_error + 'a list" where
  "paginate page' paginate_by query =
     (let limit = paginate_by;
          offset = page_offset page' paginate_by
      in if sql_int limit \<and> sql_int offset then
           (let rest = drop (nat offset) query
            in Inr (if limit < 0 then rest else take (nat limit) rest))
         else Inl OverflowError)"

text \<open>
  \<open>math.ceil(total / page_size)\<close> on integers; a zero divisor raises.  The quotient
  is written in integer arithmetic (\<open>ceil_div_real\<close> below relates it to the ceiling
  of the real quotient); the floating point quotient of the source agrees with it
  for every count below \<open>2 ^ 53\<close> and every page size the storage engine accepts.
\<close>

definition ceil_div :: "int \<Rightarrow> int \<Rightarrow> py_error + int" where
  "ceil_div n d = (if d = 0 then Inl ZeroDivisionError else Inr (- ((- n) div d)))"

record 'a envelope =
  page :: int
  page_size :: int
  total_pages :: int
  total_items :: int
  items :: "'a list"
  has_hidden_comments :: bool

definition comment_list ::
  "database \<Rightarrow> string option \<Rightarrow> string option \<Rightarrow> bool \<Rightarrow> string option \<Rightarrow> int \<Rightarrow> int
     \<Rightarrow> (Comment \<Rightarrow> bool) option \<Rightarrow> string list option \<Rightarrow> string list option
     \<Rightarrow> py_error + item envelope" where
  "comment_list db claim_id' parent_id top_level exclude_mode page' page_size' expressions
       select_fields exclude_fields =
     (let fields' = selected_fields select_fields exclude_fields;
          query = where_clauses claim_id' parent_id top_level exclude_mode expressions (comments db);
          total = int (length query)
      in case paginate page' page_size' (order_by_timestamp_desc db query) of
           Inl e \<Rightarrow> Inl e
         | Inr query \<Rightarrow>
             (let items' = map (\<lambda>r. clean (row_dict db fields' r)) query
              in case ceil_div total page_size' of
                   Inl e \<Rightarrow> Inl e
                 | Inr pages \<Rightarrow>
                     Inr \<lparr>page = page', page_size = page_size', total_pages = pages,
                          total_items = total, items = items',
                          has_hidden_comments = (exclude_mode = Some ''hidden'')\<rparr>))"

text \<open>\<open>list.pop()\<close>: the last element, \<open>IndexError\<close> on the empty list.\<close>

definition pop :: "'a list \<Rightarrow> py_error + 'a" where
  "pop xs = (if xs = [] then Inl IndexError else Inr (last xs))"

definition get_comment :: "database \<Rightarrow> string \<Rightarrow> py_error + item" where
  "get_comment db comment_id' =
     (case comment_list db None None False None 1 1
             (Some (\<lambda>r. comment_id r = comment_id')) None None of
        Inl e \<Rightarrow> Inl e
      | Inr results \<Rightarrow> pop (items results))"

text \<open>\<open>item['comment_id']\<close> raises \<open>KeyError\<close> on a missing key; \<open>item.get\<close> does not.\<close>

definition getitem :: "item \<Rightarrow> string \<Rightarrow> py_error + val" where
  "getitem it k = (case map_of it k of None \<Rightarrow> Inl KeyError | Some v \<Rightarrow> Inr v)"

fun flatten_items :: "item list \<Rightarrow> py_error + val list" where
  "flatten_items [] = Inr []"
| "flatten_items (it # its) =
     (case getitem it ''comment_id'' of
        Inl e \<Rightarrow> Inl e
      | Inr v \<Rightarrow> (case flatten_items its of Inl e \<Rightarrow> Inl e | Inr vs \<Rightarrow> Inr (v # vs)))"

fun flatten_replies :: "item list \<Rightarrow> py_error + (val \<times> val option) list" where
  "flatten_replies [] = Inr []"
| "flatten_replies (it # its) =
     (case getitem it ''comment_id'' of
        Inl e \<Rightarrow> Inl e
      | Inr v \<Rightarrow>
          (case flatten_replies its of
             Inl e \<Rightarrow> Inl e
           | Inr vs \<Rightarrow> Inr ((v, map_of it ''parent_id'') # vs)))"

text \<open>
  The result of \<open>get_comment_ids\<close>: the envelope of \<open>comment_list\<close>, or, when
  \<open>flattened\<close>, the same envelope with the identifiers as items and the added key
  \<open>replies\<close>.
\<close>

datatype ids_result =
    Results "item envelope"
  | Flattened "val envelope" "(val \<times> val option) list"

definition get_comment_ids ::
  "database \<Rightarrow> string option \<Rightarrow> string option \<Rightarrow> int \<Rightarrow> int \<Rightarrow> bool \<Rightarrow> py_error + ids_result" where
  "get_comment_ids db claim_id' parent_id page' page_size' flattened =
     (case comment_list db claim_id' parent_id (parent_id = None) None page' page_size' None
             (Some [''comment_id'', ''parent_id'']) None of
        Inl e \<Rightarrow> Inl e
      | Inr results \<Rightarrow>
          if flattened then
            (case flatten_items (items results) of
               Inl e \<Rightarrow> Inl e
             | Inr ids \<Rightarrow>
                 (case flatten_replies (items results) of
                    Inl e \<Rightarrow> Inl e
                  | Inr rs \<Rightarrow>
                      Inr (Flattened
                            \<lparr>page = page results, page_size = page_size results,
                             total_pages = total_pages results, total_items = total_items results,
                             items = ids, has_hidden_comments = has_hidden_comments results\<rparr>
                            rs)))
          else Inr (Results results))"

definition get_comments_by_id :: "database \<Rightarrow> string list \<Rightarrow> py_error + item envelope" where
  "get_comments_by_id db comment_ids =
     comment_list db None None False None 1 (int (length comment_ids))
       (Some (\<lambda>r. comment_id r \<in> set comment_ids)) None None"

definition get_channel_from_comment_id :: "database \<Rightarrow> string \<Rightarrow> py_error + item" where
  "get_channel_from_comment_id db comment_id' =
     (case comment_list db None None False None 1 1
             (Some (\<lambda>r. comment_id r = comment_id'))
             (Some [''channel_name'', ''channel_id'', ''channel_url'']) None of
        Inl e \<Rightarrow> Inl e
      | Inr results \<Rightarrow> pop (items results))"

subsection \<open>The store of the scenarios\<close>

text \<open>
  Comment \<open>c1\<close> is top-level on claim \<open>k1\<close> at timestamp 100; comment \<open>c2\<close> replies
  to \<open>c1\<close> on the same claim at timestamp 200.  Neither names a channel.  The
  timestamps differ, so the rank among equal timestamps plays no part.
\<close>

definition c1 :: Comment where
  "c1 = \<lparr>comment = ''first'', channel = None, comment_id = ''c1'', is_hidden = False,
         claim_id = ''k1'', parent = None, signature = None, signing_ts = None,
         timestamp = 100\<rparr>"

definition c2 :: Comment where
  "c2 = \<lparr>comment = ''second'', channel = None, comment_id = ''c2'', is_hidden = False,
         claim_id = ''k1'', parent = Some ''c1'', signature = None, signing_ts = None,
         timestamp = 200\<rparr>"

definition scenario_db :: database where
  "scenario_db = \<lparr>comments = [c1, c2], channels = [], tie_rank = (\<lambda>r. 0)\<rparr>"

section \<open>Request dispatch and write gateway (handles.py)\<close>

text \<open>A decoded JSON document.\<close>

datatype json =
    JNull
  | JBool bool
  | JInt int
  | JStr string
  | JArr "json list"
  | JObj "(string \<times> json) list"

text \<open>
  The keys of the table \<open>ERRORS\<close> that the module uses.  The table itself belongs to
  another module; a response is modelled as carrying the key of its error object.
\<close>

datatype error_key = PARSE_ERROR | INVALID_REQUEST | METHOD_NOT_FOUND | INVALID_PARAMS | INTERNAL

text \<open>A unit of work handed to \<open>app['comment_scheduler'].spawn\<close>.\<close>

datatype job = WriteComment json | DeleteQuery json json

text \<open>
  The application state: the store behind \<open>app['writer']\<close> and \<open>app['db_path']\<close>, and the
  units of work spawned on the scheduler so far.
\<close>

record app =
  store :: database
  comment_scheduler :: "job list"

text \<open>
  The functions imported from other modules, as parameters: the sanitiser of
  parameters, the authenticity predicate, the two writes and the four reads of
  \<open>src.database\<close>.  Each of them may raise, except the predicate, which answers.
\<close>

record externals =
  clean_input_params :: "json \<Rightarrow> py_error + json"
  is_authentic_delete_signal :: "app \<Rightarrow> json \<Rightarrow> json \<Rightarrow> json \<Rightarrow> json \<Rightarrow> bool"
  delete_channel_comment_by_id :: "database \<Rightarrow> json \<Rightarrow> json \<Rightarrow> (py_error + json) \<times> database"
  create_comment_or_error :: "database \<Rightarrow> (string \<times> json) list \<Rightarrow> (py_error + json) \<times> database"
  db_get_claim_comments :: "database \<Rightarrow> (string \<times> json) list \<Rightarrow> py_error + json"
  db_get_comment_ids :: "database \<Rightarrow> (string \<times> json) list \<Rightarrow> py_error + json"
  db_get_comments_by_id :: "database \<Rightarrow> (string \<times> json) list \<Rightarrow> py_error + json"
  db_get_channel_from_comment_id :: "database \<Rightarrow> (string \<times> json) list \<Rightarrow> py_error + json"

type_synonym handler = "app \<Rightarrow> json \<Rightarrow> (py_error + json) \<times> app"

definition ping :: handler where
  "ping a args = (Inr (JStr ''pong''), a)"

text \<open>
  A read handler opens a connection and calls the read with \<open>**kwargs\<close>; unpacking
  anything but an object raises \<open>TypeError\<close>.
\<close>

definition handle_get_channel_from_comment_id :: "externals \<Rightarrow> handler" where
  "handle_get_channel_from_comment_id ext a kwargs =
     (case kwargs of
        JObj kv \<Rightarrow> (db_get_channel_from_comment_id ext (store a) kv, a)
      | _ \<Rightarrow> (Inl TypeError, a))"

definition handle_get_comment_ids :: "externals \<Rightarrow> handler" where
  "handle_get_comment_ids ext a kwargs =
     (case kwargs of
        JObj kv \<Rightarrow> (db_get_comment_ids ext (store a) kv, a)
      | _ \<Rightarrow> (Inl TypeError, a))"

definition handle_get_claim_comments :: "externals \<Rightarrow> handler" where
  "handle_get_claim_comments ext a kwargs =
     (case kwargs of
        JObj kv \<Rightarrow> (db_get_claim_comments ext (store a) kv, a)
      | _ \<Rightarrow> (Inl TypeError, a))"

definition handle_get_comments_by_id :: "externals \<Rightarrow> handler" where
  "handle_get_comments_by_id ext a kwargs =
     (case kwargs of
        JObj kv \<Rightarrow> (db_get_comments_by_id ext (store a) kv, a)
      | _ \<Rightarrow> (Inl TypeError, a))"

text \<open>
  \<open>handle_create_comment\<close> spawns \<open>write_comment\<close> and waits for it; the job unpacks
  the parameters and runs the write on the store.
\<close>

definition handle_create_comment :: "externals \<Rightarrow> handler" where
  "handle_create_comment ext a params =
     (let a = a\<lparr>comment_scheduler := comment_scheduler a @ [WriteComment params]\<rparr>
      in case params of
           JObj kv \<Rightarrow>
             (case create_comment_or_error ext (store a) kv of
                (res, db') \<Rightarrow> (res, a\<lparr>store := db'\<rparr>))
         | _ \<Rightarrow> (Inl TypeError, a))"

definition delete_comment_if_authorized ::
  "externals \<Rightarrow> app \<Rightarrow> json \<Rightarrow> json \<Rightarrow> json \<Rightarrow> json \<Rightarrow> (py_error + json) \<times> app" where
  "delete_comment_if_authorized ext a comment_id' channel_name channel_id signature' =
     (let authorized = is_authentic_delete_signal ext a comment_id' channel_name channel_id signature'
      in if \<not> authorized then (Inr (JObj [(''deleted'', JBool False)]), a)
         else
           (case delete_channel_comment_by_id ext (store a) comment_id' channel_id of
              (res, db') \<Rightarrow>
                (let a = a\<lparr>store := db',
                            comment_scheduler :=
                              comment_scheduler a @ [DeleteQuery comment_id' channel_id]\<rparr>
                 in case res of
                      Inl e \<Rightarrow> (Inl e, a)
                    | Inr d \<Rightarrow> (Inr (JObj [(''deleted'', d)]), a))))"

text \<open>
  \<open>handle_delete_comment\<close> calls with \<open>**params\<close>: the call binds exactly the four
  keyword parameters, and raises \<open>TypeError\<close> for any other set of keys.
\<close>

definition handle_delete_comment :: "externals \<Rightarrow> handler" where
  "handle_delete_comment ext a params =
     (case params of
        JObj kv \<Rightarrow>
          (case (map_of kv ''comment_id'', map_of kv ''channel_name'',
                 map_of kv ''channel_id'', map_of kv ''signature'') of
             (Some c, Some n, Some i, Some s) \<Rightarrow>
               if set (map fst kv) = {''comment_id'', ''channel_name'', ''channel_id'', ''signature''}
               then delete_comment_if_authorized ext a c n i s
               else (Inl TypeError, a)
           | _ \<Rightarrow> (Inl TypeError, a))
      | _ \<Rightarrow> (Inl TypeError, a))"

definition METHODS :: "externals \<Rightarrow> (string \<times> handler) list" where
  "METHODS ext =
    [(''ping'', ping),
     (''get_claim_comments'', handle_get_claim_comments ext),
     (''get_comment_ids'', handle_get_comment_ids ext),
     (''get_comments_by_id'', handle_get_comments_by_id ext),
     (''get_channel_from_comment_id'', handle_get_channel_from_comment_id ext),
     (''create_comment'', handle_create_comment ext),
     (''delete_comment'', handle_delete_comment ext)]"

text \<open>
  A response object; an absent key is \<open>None\<close>.  The key \<open>id\<close> is the field \<open>id'\<close>.
\<close>

record response =
  jsonrpc :: "string option"
  id' :: "json option"
  result :: "json option"
  error :: "error_key option"

text \<open>
  The \<open>except\<close> clauses of \<open>process_json\<close>, in order: \<open>TypeError\<close>, then \<open>ValueError\<close>
  (with its subclass \<open>JSONDecodeError\<close>), then any other exception.
\<close>

definition except_error :: "py_error \<Rightarrow> error_key" where
  "except_error e =
     (if e = TypeError then INVALID_PARAMS
      else if e = ValueError \<or> e = JSONDecodeError then INVALID_PARAMS
      else INTERNAL)"

text \<open>
  \<open>process_json\<close>.  Subscripting a body that is not an object raises \<open>TypeError\<close>, a
  missing key raises \<open>KeyError\<close>, and testing an array or an object for membership
  in \<open>METHODS\<close> raises \<open>TypeError\<close> (unhashable); these and an exception of the
  sanitiser are raised outside the \<open>try\<close> and leave the function.
\<close>

definition process_json :: "externals \<Rightarrow> app \<Rightarrow> json \<Rightarrow> (py_error + response) \<times> app" where
  "process_json ext a body =
     (case body of
        JObj kv \<Rightarrow>
          (case map_of kv ''id'' of
             None \<Rightarrow> (Inl KeyError, a)
           | Some i \<Rightarrow>
               (let response = \<lparr>jsonrpc = Some ''2.0'', id' = Some i, result = None, error = None\<rparr>
                in case map_of kv ''method'' of
                     None \<Rightarrow> (Inl KeyError, a)
                   | Some (JArr _) \<Rightarrow> (Inl TypeError, a)
                   | Some (JObj _) \<Rightarrow> (Inl TypeError, a)
                   | Some (JStr method) \<Rightarrow>
                       (case map_of (METHODS ext) method of
                          None \<Rightarrow> (Inr (response\<lparr>error := Some METHOD_NOT_FOUND\<rparr>), a)
                        | Some h \<Rightarrow>
                            (let params = (case map_of kv ''params'' of
                                             None \<Rightarrow> JObj []
                                           | Some p \<Rightarrow> p)
                             in case clean_input_params ext params of
                                  Inl e \<Rightarrow> (Inl e, a)
                                | Inr params \<Rightarrow>
                                    (case h a params of
                                       (Inr res, a') \<Rightarrow> (Inr (response\<lparr>result := Some res\<rparr>), a')
                                     | (Inl e, a') \<Rightarrow>
                                         (Inr (response\<lparr>error := Some (except_error e)\<rparr>), a'))))
                   | Some _ \<Rightarrow> (Inr (response\<lparr>error := Some METHOD_NOT_FOUND\<rparr>), a)))
      | _ \<Rightarrow> (Inl TypeError, a))"

text \<open>
  The list comprehension of the batch branch: the parts in order, the state threaded
  through, stopping at the first exception.
\<close>

fun process_parts :: "externals \<Rightarrow> app \<Rightarrow> json list \<Rightarrow> (py_error + response list) \<times> app" where
  "process_parts ext a [] = (Inr [], a)"
| "process_parts ext a (part # rest) =
     (case process_json ext a part of
        (Inl e, a') \<Rightarrow> (Inl e, a')
      | (Inr r, a') \<Rightarrow>
          (case process_parts ext a' rest of
             (Inl e, a'') \<Rightarrow> (Inl e, a'')
           | (Inr rs, a'') \<Rightarrow> (Inr (r # rs), a'')))"

datatype http_body = Single response | Batch "response list"

definition error_response :: "error_key \<Rightarrow> response" where
  "error_response k = \<lparr>jsonrpc = None, id' = None, result = None, error = Some k\<rparr>"

text \<open>The two \<open>except\<close> clauses of \<open>api_endpoint\<close>.\<close>

definition endpoint_except :: "py_error \<Rightarrow> http_body" where
  "endpoint_except e =
     (if e = JSONDecodeError then Single (error_response PARSE_ERROR)
      else Single (error_response INVALID_REQUEST))"

text \<open>
  \<open>api_endpoint\<close>, given the outcome of \<open>await request.json()\<close>: the decoded body or
  the exception of the decoder.
\<close>

definition api_endpoint :: "externals \<Rightarrow> app \<Rightarrow> py_error + json \<Rightarrow> http_body \<times> app" where
  "api_endpoint ext a request_json =
     (case request_json of
        Inl e \<Rightarrow> (endpoint_except e, a)
      | Inr body \<Rightarrow>
          (case body of
             JArr parts \<Rightarrow>
               (case process_parts ext a parts of
                  (Inl e, a') \<Rightarrow> (endpoint_except e, a')
                | (Inr rs, a') \<Rightarrow> (Batch rs, a'))
           | JObj kv \<Rightarrow>
               (case process_json ext a body of
                  (Inl e, a') \<Rightarrow> (endpoint_except e, a')
                | (Inr r, a') \<Rightarrow> (Single r, a'))
           | _ \<Rightarrow> (Single (error_response INVALID_REQUEST), a)))"

section \<open>Notions used to state the properties\<close>

text \<open>
  The rows of the page a call of \<open>comment_list\<close> materialises: the rows passing the
  filters, newest first, cut to the page; or the exception of the paginated query.
\<close>

definition page_rows ::
  "database \<Rightarrow> string option \<Rightarrow> string option \<Rightarrow> bool \<Rightarrow> string option
     \<Rightarrow> (Comment \<Rightarrow> bool) option \<Rightarrow> int \<Rightarrow> int \<Rightarrow> py_error + Comment list" where
  "page_rows db claim_id' parent_id top_level exclude_mode expressions page' page_size' =
     paginate page' page_size'
       (order_by_timestamp_desc db
          (where_clauses claim_id' parent_id top_level exclude_mode expressions (comments db)))"

text \<open>
  The value stored for a registry key in a row (with its joined channel); \<open>None\<close>
  when it is NULL, and for a name outside the registry.
\<close>

definition stored_value :: "database \<Rightarrow> Comment \<Rightarrow> string \<Rightarrow> val option" where
  "stored_value db r k =
     (case map_of FIELDS k of None \<Rightarrow> None | Some e \<Rightarrow> e r (join_channel db r))"

text \<open>
  The key set in the words of the specification: the registry keys minus the excluded
  keys, intersected with the included keys; an absent list excludes nothing and
  includes everything.
\<close>

definition spec_projection_keys :: "string list option \<Rightarrow> string list option \<Rightarrow> string set" where
  "spec_projection_keys select_fields exclude_fields =
     (set FIELDS_keys - (case exclude_fields of None \<Rightarrow> {} | Some ex \<Rightarrow> set ex))
       \<inter> (case select_fields of None \<Rightarrow> UNIV | Some sel \<Rightarrow> set sel)"

text \<open>The identifier of a request part, when the part is an object with the key \<open>id\<close>.\<close>

definition request_id :: "json \<Rightarrow> json option" where
  "request_id part = (case part of JObj kv \<Rightarrow> map_of kv ''id'' | _ \<Rightarrow> None)"

text \<open>
  A request envelope \<open>{id, method, params?}\<close>: an object with an identifier and a
  method name, on whose parameters the sanitiser returns when the method is
  registered.
\<close>

definition request_envelope :: "externals \<Rightarrow> json \<Rightarrow> bool" where
  "request_envelope ext part =
     (case part of
        JObj kv \<Rightarrow>
          (case (map_of kv ''id'', map_of kv ''method'') of
             (Some i, Some (JStr m)) \<Rightarrow>
               (case map_of (METHODS ext) m of
                  None \<Rightarrow> True
                | Some h \<Rightarrow>
                    \<not> isl (clean_input_params ext
                             (case map_of kv ''params'' of None \<Rightarrow> JObj [] | Some p \<Rightarrow> p)))
           | _ \<Rightarrow> False)
      | _ \<Rightarrow> False)"

subsection \<open>Stand-ins for the imported functions\<close>

text \<open>
  One choice of the imported functions, used to instantiate the theorems below: the
  sanitiser returns its argument, a delete signal is authentic when its signature is
  the string \<open>valid\<close>, the delete removes the comment with the given identifier, and
  the remaining functions only answer.
\<close>

definition example_externals :: externals where
  "example_externals =
     \<lparr>clean_input_params = (\<lambda>p. Inr p),
      is_authentic_delete_signal = (\<lambda>a c n i s. s = JStr ''valid''),
      delete_channel_comment_by_id =
        (\<lambda>db c i. (Inr (JBool True),
                    db\<lparr>comments := filter (\<lambda>r. JStr (comment_id r) \<noteq> c) (comments db)\<rparr>)),
      create_comment_or_error = (\<lambda>db kv. (Inl ValueError, db)),
      db_get_claim_comments = (\<lambda>db kv. Inr (JArr [])),
      db_get_comment_ids = (\<lambda>db kv. Inr (JArr [])),
      db_get_comments_by_id = (\<lambda>db kv. Inr (JArr [])),
      db_get_channel_from_comment_id = (\<lambda>db kv. Inl IndexError)\<rparr>"

definition example_app :: app where
  "example_app = \<lparr>store = scenario_db, comment_scheduler = []\<rparr>"

section \<open>Properties of the projection and pagination engine\<close>

subsection \<open>The outcomes of \<open>comment_list\<close>\<close>

lemma paginate_Inr:
  "sql_int ps \<Longrightarrow> sql_int (page_offset pg ps) \<Longrightarrow>
   paginate pg ps q =
     Inr (if ps < 0 then drop (nat (page_offset pg ps)) q
          else take (nat ps) (drop (nat (page_offset pg ps)) q))"
  by (simp add: paginate_def Let_def)

lemma paginate_Inl:
  "\<not> (sql_int ps \<and> sql_int (page_offset pg ps)) \<Longrightarrow> paginate pg ps q = Inl OverflowError"
  by (auto simp: paginate_def Let_def)

lemma paginate_InrD:
  "paginate pg ps q = Inr rows \<Longrightarrow> sql_int ps \<and> sql_int (page_offset pg ps)"
  by (auto simp: paginate_def Let_def split: if_splits)

lemma sql_int_0 [simp]: "sql_int 0"
  by (simp add: sql_int_def)

lemma page_offset_0 [simp]: "page_offset pg 0 = 0"
  by (simp add: page_offset_def)

lemma comment_list_Inr:
  assumes "ps \<noteq> 0"
    and "paginate pg ps (order_by_timestamp_desc db (where_clauses c p t m e (comments db)))
           = Inr rows"
  shows "comment_list db c p t m pg ps e s x =
     Inr \<lparr>page = pg, page_size = ps,
          total_pages = - ((- int (length (where_clauses c p t m e (comments db)))) div ps),
          total_items = int (length (where_clauses c p t m e (comments db))),
          items = map (\<lambda>r. clean (row_dict db (selected_fields s x) r)) rows,
          has_hidden_comments = (m = Some ''hidden'')\<rparr>"
  using assms by (simp add: comment_list_def ceil_div_def Let_def)

lemma comment_list_zero:
  "comment_list db c p t m pg 0 e s x = Inl ZeroDivisionError"
  by (simp add: comment_list_def ceil_div_def Let_def paginate_Inr)

lemma comment_list_overflow:
  assumes "\<not> (sql_int ps \<and> sql_int (page_offset pg ps))"
  shows "comment_list db c p t m pg ps e s x = Inl OverflowError"
  by (simp add: comment_list_def Let_def paginate_Inl [OF assms])

lemma comment_list_InrD:
  assumes "comment_list db c p t m pg ps e s x = Inr env"
  shows "ps \<noteq> 0 \<and> sql_int ps \<and> sql_int (page_offset pg ps)
       \<and> (\<exists>rows. paginate pg ps (order_by_timestamp_desc db (where_clauses c p t m e (comments db)))
                   = Inr rows
            \<and> env = \<lparr>page = pg, page_size = ps,
                  total_pages = - ((- int (length (where_clauses c p t m e (comments db)))) div ps),
                  total_items = int (length (where_clauses c p t m e (comments db))),
                  items = map (\<lambda>r. clean (row_dict db (selected_fields s x) r)) rows,
                  has_hidden_comments = (m = Some ''hidden'')\<rparr>)"
proof (cases "paginate pg ps (order_by_timestamp_desc db (where_clauses c p t m e (comments db)))")
  case (Inl err)
  with assms show ?thesis
    by (simp add: comment_list_def Let_def)
next
  case (Inr rows)
  from assms have nz: "ps \<noteq> 0"
    by (auto simp: comment_list_zero)
  from Inr have "sql_int ps \<and> sql_int (page_offset pg ps)"
    by (rule paginate_InrD)
  with assms nz Inr show ?thesis
    by (auto simp: comment_list_Inr)
qed

lemma comment_list_returns:
  assumes "ps \<noteq> 0" and "sql_int ps" and "sql_int (page_offset pg ps)"
  shows "\<exists>env. comment_list db c p t m pg ps e s x = Inr env"
  using comment_list_Inr [OF assms(1) paginate_Inr [OF assms(2,3)]] by blast

text \<open>The equations that evaluate a query on the store of the scenarios.\<close>

lemmas scenario_eval =
  scenario_db_def c1_def c2_def comment_list_def selected_fields_def FIELDS_keys_def FIELDS_def
  where_clauses_def order_by_timestamp_desc_def paginate_def page_offset_def sql_int_def
  ceil_div_def row_dict_def select_columns_def clean_def join_channel_def getitem_def

subsection \<open>Ceiling division\<close>

lemma ceil_div_real:
  assumes "d \<noteq> 0"
  shows "ceil_div n d = Inr \<lceil>real_of_int n / real_of_int d\<rceil>"
proof -
  have "- (real_of_int n / real_of_int d) = real_of_int (- n) / real_of_int d"
    by simp
  then have "\<lfloor>- (real_of_int n / real_of_int d)\<rfloor> = (- n) div d"
    by (simp only: floor_divide_of_int_eq)
  then have "\<lceil>real_of_int n / real_of_int d\<rceil> = - ((- n) div d)"
    by (simp add: ceiling_def)
  with assms show ?thesis
    by (simp add: ceil_div_def)
qed

lemma ceil_mult_ge:
  assumes "0 < (d::int)"
  shows "n \<le> (- ((- n) div d)) * d"
proof -
  have "(- n) div d * d + (- n) mod d = - n"
    by simp
  moreover have "0 \<le> (- n) mod d"
    using assms by simp
  ultimately have "(- n) div d * d \<le> - n"
    by linarith
  then show ?thesis
    by simp
qed

lemma ceil_nonneg: "0 < (d::int) \<Longrightarrow> 0 \<le> n \<Longrightarrow> 0 \<le> - ((- n) div d)"
  by (simp add: div_nonpos_pos_le0)

subsection \<open>Pages\<close>

lemma page_beyond:
  assumes "0 < ps" and "- ((- int (length xs)) div ps) < pg"
  shows "take (nat ps) (drop (nat (page_offset pg ps)) xs) = []"
proof -
  let ?t = "- ((- int (length xs)) div ps)"
  have t: "int (length xs) \<le> ?t * ps"
    using assms(1) by (rule ceil_mult_ge)
  have "0 \<le> ?t"
    using ceil_nonneg [OF assms(1), of "int (length xs)"] by simp
  with assms(2) have pg: "0 < pg" "?t \<le> pg - 1"
    by auto
  have "?t * ps \<le> (pg - 1) * ps"
    using mult_right_mono [OF pg(2), of ps] assms(1) by simp
  with t have "int (length xs) \<le> (pg - 1) * ps"
    by linarith
  then have "length xs \<le> nat ((pg - 1) * ps)"
    by linarith
  with pg(1) show ?thesis
    by (simp add: page_offset_def)
qed

lemma len_page:
  assumes "0 < ps" and "1 \<le> pg"
  shows "int (length (take (nat ps) (drop (nat (page_offset pg ps)) xs)))
           = max 0 (min ps (int (length xs) - (pg - 1) * ps))"
proof -
  from assms have k: "0 \<le> (pg - 1) * ps" and off: "page_offset pg ps = (pg - 1) * ps"
    by (simp_all add: page_offset_def)
  have "length (take (nat ps) (drop (nat (page_offset pg ps)) xs))
          = min (nat ps) (length xs - nat ((pg - 1) * ps))"
    by (simp add: off)
  with k assms(1) show ?thesis
    by (simp add: min_def max_def) linarith
qed

lemma length_order_by [simp]: "length (order_by_timestamp_desc db q) = length q"
  by (simp add: order_by_timestamp_desc_def)

lemma set_order_by [simp]: "set (order_by_timestamp_desc db q) = set q"
  by (simp add: order_by_timestamp_desc_def)

text \<open>
  Claim C2, as stated: every call with a positive page size returns an envelope, and a
  page beyond \<open>total_pages\<close> gives zero items rather than an error.  It fails where
  the page size or the offset is not a 64-bit integer: at page 3 with page size
  \<open>2 ^ 62\<close> the offset is \<open>2 ^ 63\<close>, the storage engine refuses it, and the call
  raises \<open>OverflowError\<close> although page 3 lies beyond the single page of results.
\<close>

theorem comment_list_pagination_counterexample:
  "comment_list scenario_db None None False None 3 (2 ^ 62) None None None = Inl OverflowError"
  by (rule comment_list_overflow) (simp add: sql_int_def page_offset_def)

text \<open>
  Claim C2, amended.  For every call of \<open>comment_list\<close> with a positive page size, when
  the page size and the offset of the page are 64-bit integers an envelope is returned
  (no exception), it repeats the page number and page size of the call, its
  \<open>total_pages\<close> is the ceiling of \<open>total_items / page_size\<close>, pages are counted
  from 1 (page \<open>n \<ge> 1\<close> holds the rows after the first \<open>(n - 1) * page_size\<close>, at most
  \<open>page_size\<close> of them), and a page beyond \<open>total_pages\<close> has no items; otherwise
  the call raises \<open>OverflowError\<close>.
\<close>

theorem comment_list_pagination:
  assumes "0 < ps"
  shows "(sql_int ps \<and> sql_int (page_offset pg ps) \<longrightarrow>
            (\<exists>env. comment_list db c p t m pg ps e s x = Inr env
               \<and> page env = pg \<and> page_size env = ps
               \<and> total_pages env = \<lceil>real_of_int (total_items env) / real_of_int ps\<rceil>
               \<and> (1 \<le> pg \<longrightarrow>
                    int (length (items env)) = max 0 (min ps (total_items env - (pg - 1) * ps)))
               \<and> (total_pages env < pg \<longrightarrow> items env = [])))
       \<and> (\<not> (sql_int ps \<and> sql_int (page_offset pg ps)) \<longrightarrow>
            comment_list db c p t m pg ps e s x = Inl OverflowError)"
proof (intro conjI impI)
  assume r: "sql_int ps \<and> sql_int (page_offset pg ps)"
  let ?q = "where_clauses c p t m e (comments db)"
  let ?rows = "take (nat ps) (drop (nat (page_offset pg ps)) (order_by_timestamp_desc db ?q))"
  from assms have nz: "ps \<noteq> 0" by simp
  from r assms have pag: "paginate pg ps (order_by_timestamp_desc db ?q) = Inr ?rows"
    by (simp add: paginate_Inr)
  have "- ((- int (length ?q)) div ps) = \<lceil>real_of_int (int (length ?q)) / real_of_int ps\<rceil>"
    using ceil_div_real [OF nz, of "int (length ?q)"] by (simp add: ceil_div_def nz)
  moreover have "- ((- int (length ?q)) div ps) < pg \<Longrightarrow> ?rows = []"
    using page_beyond [OF assms, of "order_by_timestamp_desc db ?q" pg] by simp
  moreover have "1 \<le> pg \<Longrightarrow>
      int (length ?rows) = max 0 (min ps (int (length ?q) - (pg - 1) * ps))"
    using len_page [OF assms, of pg "order_by_timestamp_desc db ?q"] by simp
  ultimately show "\<exists>env. comment_list db c p t m pg ps e s x = Inr env
               \<and> page env = pg \<and> page_size env = ps
               \<and> total_pages env = \<lceil>real_of_int (total_items env) / real_of_int ps\<rceil>
               \<and> (1 \<le> pg \<longrightarrow>
                    int (length (items env)) = max 0 (min ps (total_items env - (pg - 1) * ps)))
               \<and> (total_pages env < pg \<longrightarrow> items env = [])"
    by (simp add: comment_list_Inr [OF nz pag])
next
  assume "\<not> (sql_int ps \<and> sql_int (page_offset pg ps))"
  then show "comment_list db c p t m pg ps e s x = Inl OverflowError"
    by (rule comment_list_overflow)
qed

theorem comment_list_pagination_witness:
  "(\<exists>env. comment_list scenario_db None None False None 3 1 None None None = Inr env
      \<and> page env = 3 \<and> page_size env = 1 \<and> total_pages env = 2 \<and> items env = [])
   \<and> comment_list scenario_db None None False None 1 (2 ^ 63) None None None = Inl OverflowError"
proof -
  have h: "(0::int) < 1" by simp
  have r: "sql_int 1 \<and> sql_int (page_offset 3 1)"
    by (simp add: sql_int_def page_offset_def)
  have "where_clauses None None False None None (comments scenario_db) = [c1, c2]"
    by (simp add: where_clauses_def scenario_db_def)
  then have tot: "comment_list scenario_db None None False None 3 1 None None None = Inr env
      \<Longrightarrow> total_items env = 2" for env
    by (auto dest!: comment_list_InrD)
  have big: "(0::int) < 2 ^ 63" by simp
  have nr: "\<not> (sql_int (2 ^ 63) \<and> sql_int (page_offset 1 (2 ^ 63)))"
    by (simp add: sql_int_def)
  note inside = comment_list_pagination
      [OF h, of 3 scenario_db None None False None None None None, THEN conjunct1, THEN mp, OF r]
  note outside = comment_list_pagination
      [OF big, of 1 scenario_db None None False None None None None, THEN conjunct2, THEN mp, OF nr]
  from inside have "\<exists>env. comment_list scenario_db None None False None 3 1 None None None = Inr env
      \<and> page env = 3 \<and> page_size env = 1 \<and> total_pages env = 2 \<and> items env = []"
  proof (elim exE conjE, goal_cases)
    case (1 env)
    from tot [OF 1(1)] 1(4) have tp: "total_pages env = 2"
      by simp
    with 1(6) have "items env = []"
      by simp
    with 1(1,2,3) tp show ?case
      by blast
  qed
  with outside show ?thesis
    by (intro conjI)
qed

text \<open>
  Claim C4.  \<open>get_comments_by_id\<close> uses the number of requested identifiers as page
  size, so for the empty sequence the page size is 0 and the division in
  \<open>comment_list\<close> raises \<open>ZeroDivisionError\<close>: no envelope is returned.
\<close>

theorem get_comments_by_id_empty_raises:
  "get_comments_by_id db [] = Inl ZeroDivisionError"
  by (simp add: get_comments_by_id_def comment_list_zero)

text \<open>
  Claim C9.  Every envelope returned by \<open>comment_list\<close> carries the key
  \<open>has_hidden_comments\<close>, true exactly when the argument \<open>exclude_mode\<close> is the string
  \<open>hidden\<close>; an envelope is returned whenever the page size is not 0 and the page
  size and offset are 64-bit integers.  The derived reads, which pass no
  \<open>exclude_mode\<close>, carry the value false.
\<close>

theorem comment_list_has_hidden_comments:
  "(comment_list db c p t m pg ps e s x = Inr env
      \<longrightarrow> has_hidden_comments env = (m = Some ''hidden''))
   \<and> (ps \<noteq> 0 \<and> sql_int ps \<and> sql_int (page_offset pg ps)
        \<longrightarrow> (\<exists>env'. comment_list db c p t m pg ps e s x = Inr env'))
   \<and> (get_comments_by_id db ids = Inr env \<longrightarrow> \<not> has_hidden_comments env)
   \<and> (get_comment_ids db c p pg ps False = Inr (Results env) \<longrightarrow> \<not> has_hidden_comments env)
   \<and> (get_comment_ids db c p pg ps True = Inr (Flattened fenv rs)
        \<longrightarrow> \<not> has_hidden_comments fenv)"
proof (intro conjI impI)
  assume "comment_list db c p t m pg ps e s x = Inr env"
  from comment_list_InrD [OF this] show "has_hidden_comments env = (m = Some ''hidden'')"
    by auto
next
  assume "ps \<noteq> 0 \<and> sql_int ps \<and> sql_int (page_offset pg ps)"
  then show "\<exists>env'. comment_list db c p t m pg ps e s x = Inr env'"
    by (simp add: comment_list_returns)
next
  assume "get_comments_by_id db ids = Inr env"
  then have "comment_list db None None False None 1 (int (length ids))
       (Some (\<lambda>r. comment_id r \<in> set ids)) None None = Inr env"
    by (simp add: get_comments_by_id_def)
  from comment_list_InrD [OF this] show "\<not> has_hidden_comments env"
    by auto
next
  assume a: "get_comment_ids db c p pg ps False = Inr (Results env)"
  then have "comment_list db c p (p = None) None pg ps None
       (Some [''comment_id'', ''parent_id'']) None = Inr env"
    by (simp add: get_comment_ids_def split: sum.splits)
  from comment_list_InrD [OF this] show "\<not> has_hidden_comments env"
    by auto
next
  assume a: "get_comment_ids db c p pg ps True = Inr (Flattened fenv rs)"
  then obtain env' where e: "comment_list db c p (p = None) None pg ps None
       (Some [''comment_id'', ''parent_id'']) None = Inr env'"
    and f: "has_hidden_comments fenv = has_hidden_comments env'"
    by (auto simp: get_comment_ids_def split: sum.splits)
  from comment_list_InrD [OF e] f show "\<not> has_hidden_comments fenv"
    by auto
qed

theorem comment_list_has_hidden_comments_witness:
  "(\<exists>env. comment_list scenario_db None None False (Some ''hidden'') 1 50 None None None = Inr env
      \<and> has_hidden_comments env)
   \<and> (\<exists>env. get_comments_by_id scenario_db [''c1''] = Inr env \<and> \<not> has_hidden_comments env)
   \<and> (\<exists>env. get_comment_ids scenario_db None None 1 50 False = Inr (Results env)
          \<and> \<not> has_hidden_comments env)
   \<and> (\<exists>env rs. get_comment_ids scenario_db None None 1 50 True = Inr (Flattened env rs)
          \<and> \<not> has_hidden_comments env)"
proof -
  have r: "(50::int) \<noteq> 0 \<and> sql_int 50 \<and> sql_int (page_offset 1 50)"
    by (simp add: sql_int_def page_offset_def)
  note inst = comment_list_has_hidden_comments
      [of scenario_db None None False "Some ''hidden''" 1 50 None None None]
  have "\<exists>env'. comment_list scenario_db None None False (Some ''hidden'') 1 50 None None None
           = Inr env'"
    using inst [THEN conjunct2, THEN conjunct1, THEN mp, OF r] .
  then obtain env where e:
    "comment_list scenario_db None None False (Some ''hidden'') 1 50 None None None = Inr env"
    by blast
  have "has_hidden_comments env"
    using inst [of env, THEN conjunct1] e by simp
  with e have A: "\<exists>env. comment_list scenario_db None None False (Some ''hidden'') 1 50 None None None
      = Inr env \<and> has_hidden_comments env"
    by blast
  have "\<exists>env. get_comments_by_id scenario_db [''c1''] = Inr env"
    unfolding get_comments_by_id_def
    by (rule comment_list_returns) (simp_all add: sql_int_def page_offset_def)
  then obtain env1 where e1: "get_comments_by_id scenario_db [''c1''] = Inr env1"
    by blast
  note t1 = comment_list_has_hidden_comments
      [of scenario_db None None False None 1 50 None None None env1 "[''c1'']",
       THEN conjunct2, THEN conjunct2, THEN conjunct1, THEN mp, OF e1]
  have "get_comment_ids scenario_db None None 1 50 False =
     Inr (Results
           \<lparr>page = 1, page_size = 50, total_pages = 1, total_items = 2,
            items = [[(''comment_id'', VText ''c2''), (''parent_id'', VText ''c1'')],
                     [(''comment_id'', VText ''c1'')]],
            has_hidden_comments = False\<rparr>)" (is "_ = Inr (Results ?e2)")
    by (simp add: get_comment_ids_def scenario_eval)
  then have e2: "get_comment_ids scenario_db None None 1 50 False = Inr (Results ?e2)" .
  note t2 = comment_list_has_hidden_comments
      [of scenario_db None None False None 1 50 None None None ?e2,
       THEN conjunct2, THEN conjunct2, THEN conjunct2, THEN conjunct1, THEN mp, OF e2]
  have "get_comment_ids scenario_db None None 1 50 True =
     Inr (Flattened
           \<lparr>page = 1, page_size = 50, total_pages = 1, total_items = 2,
            items = [VText ''c2'', VText ''c1''], has_hidden_comments = False\<rparr>
           [(VText ''c2'', Some (VText ''c1'')), (VText ''c1'', None)])"
      (is "_ = Inr (Flattened ?e3 ?rs)")
    by (simp add: get_comment_ids_def scenario_eval)
  then have e3: "get_comment_ids scenario_db None None 1 50 True = Inr (Flattened ?e3 ?rs)" .
  note t3 = comment_list_has_hidden_comments
      [of scenario_db None None False None 1 50 None None None _ _ ?e3 ?rs,
       THEN conjunct2, THEN conjunct2, THEN conjunct2, THEN conjunct2, THEN mp, OF e3]
  from A e1 t1 e2 t2 e3 t3 show ?thesis
    by blast
qed

subsection \<open>Projection\<close>

lemma distinct_FIELDS: "distinct (map fst FIELDS)"
  by (simp add: FIELDS_def)

lemma map_of_clean:
  "distinct (map fst kvs) \<Longrightarrow>
   map_of (clean kvs) k = (case map_of kvs k of Some (Some v) \<Rightarrow> Some v | _ \<Rightarrow> None)"
proof (induction kvs)
  case Nil
  then show ?case by (simp add: clean_def)
next
  case (Cons kv kvs)
  obtain k' v' where kv: "kv = (k', v')" by (cases kv)
  from Cons.prems kv have notin: "k' \<notin> fst ` set kvs" and d: "distinct (map fst kvs)"
    by auto
  have ih: "map_of (clean kvs) k = (case map_of kvs k of Some (Some v) \<Rightarrow> Some v | _ \<Rightarrow> None)"
    using Cons.IH d by simp
  have none: "map_of kvs k' = None"
    using notin by (simp add: map_of_eq_None_iff)
  have step: "clean (kv # kvs) = (case v' of None \<Rightarrow> [] | Some y \<Rightarrow> [(k', y)]) @ clean kvs"
    by (simp add: clean_def kv)
  show ?case
  proof (cases "k = k'")
    case True
    with ih none step kv show ?thesis
      by (cases v') simp_all
  next
    case False
    with ih step kv show ?thesis
      by (cases v') simp_all
  qed
qed

lemma map_of_filter_keys:
  "map_of (filter (\<lambda>(k, e). k \<in> S) xs) k = (if k \<in> S then map_of xs k else None)"
  by (induction xs) auto

lemma map_of_row_dict:
  assumes "fs \<noteq> []"
  shows "map_of (row_dict db fs r) k =
           (if k \<in> set fs then map_option (\<lambda>e. e r (join_channel db r)) (map_of FIELDS k) else None)"
proof -
  have "row_dict db fs r =
          map (\<lambda>(k, e). (k, e r (join_channel db r))) (filter (\<lambda>(k, e). k \<in> set fs) FIELDS)"
    using assms by (simp add: row_dict_def select_columns_def)
  then show ?thesis
    by (simp add: map_of_map map_of_filter_keys)
qed

lemma distinct_row_dict:
  assumes "fs \<noteq> []"
  shows "distinct (map fst (row_dict db fs r))"
proof -
  have "map fst (row_dict db fs r) = map fst (filter (\<lambda>(k, e). k \<in> set fs) FIELDS)"
    using assms by (simp add: row_dict_def select_columns_def case_prod_unfold comp_def)
  then show ?thesis
    using distinct_FIELDS by (simp add: distinct_map_filter)
qed

lemma map_of_item:
  assumes "fs \<noteq> []"
  shows "map_of (clean (row_dict db fs r)) k = (if k \<in> set fs then stored_value db r k else None)"
  using assms
  by (simp add: map_of_clean distinct_row_dict map_of_row_dict stored_value_def
           split: option.splits)

lemma set_selected_fields:
  "set (selected_fields s x) =
     (set FIELDS_keys - (case x of None \<Rightarrow> {} | Some ex \<Rightarrow> set ex))
       \<inter> (case s of None \<Rightarrow> UNIV | Some sel \<Rightarrow> if sel = [] then UNIV else set sel)"
  by (auto simp: selected_fields_def Let_def split: option.splits)

lemma where_clauses_parent:
  assumes "p \<noteq> []"
  shows "where_clauses c (Some p) t m e q =
           filter (\<lambda>r. parent r = Some p) (where_clauses c None t m e q)"
  using assms
  by (auto simp: where_clauses_def Let_def conj_ac split: option.splits intro: filter_cong)

lemma keys_of_item:
  assumes "fs \<noteq> []"
  shows "fst ` set (clean (row_dict db fs r)) = {k \<in> set fs. stored_value db r k \<noteq> None}"
proof -
  have "fst ` set (clean (row_dict db fs r)) = dom (map_of (clean (row_dict db fs r)))"
    by (simp add: dom_map_of_conv_image_fst)
  also have "\<dots> = {k \<in> set fs. stored_value db r k \<noteq> None}"
    using assms by (auto simp: dom_def map_of_item)
  finally show ?thesis .
qed

lemma Collect_two:
  "{k \<in> set [a, b]. P k} = (if P a then {a} else {}) \<union> (if P b then {b} else {})"
  by auto

text \<open>
  Claim C1, as stated: for every exclusion and inclusion list the keys of each item lie
  in (registry keys minus excluded) intersected with included.  It fails for the empty
  inclusion list: the intersection is empty, while the source skips the intersection
  (\<open>if select_fields:\<close>) and returns every registry key with a value.
\<close>

theorem comment_list_projection_counterexample:
  "\<not> (\<forall>env. comment_list scenario_db None None False None 1 50 None (Some []) None = Inr env
         \<longrightarrow> (\<forall>it \<in> set (items env). fst ` set it \<subseteq> spec_projection_keys (Some []) None))"
  by (simp add: scenario_eval spec_projection_keys_def)

text \<open>
  Claim C1, amended.  An empty inclusion list counts as absent; otherwise the surviving
  keys are (registry keys minus excluded) intersected with included, exclusion first.
  Whenever at least one key survives, every envelope \<open>comment_list\<close> returns has one
  item per row of the page, and the keys of each item are exactly the surviving keys
  whose stored value in that row is not null, each with its stored value.  An envelope
  is returned when the page size is not 0 and the page size and offset are 64-bit
  integers.
\<close>

theorem comment_list_projection:
  assumes "selected_fields s x \<noteq> []"
  shows "set (selected_fields s x) =
          (if s = Some [] then spec_projection_keys None x else spec_projection_keys s x)
      \<and> (\<forall>env. comment_list db c p t m pg ps e s x = Inr env \<longrightarrow>
            (\<exists>rows. page_rows db c p t m e pg ps = Inr rows
               \<and> length (items env) = length rows
               \<and> (\<forall>i < length rows.
                     fst ` set (items env ! i) =
                       {k \<in> set (selected_fields s x). stored_value db (rows ! i) k \<noteq> None}
                     \<and> (\<forall>k. map_of (items env ! i) k =
                           (if k \<in> set (selected_fields s x)
                            then stored_value db (rows ! i) k else None)))))
      \<and> (ps \<noteq> 0 \<and> sql_int ps \<and> sql_int (page_offset pg ps) \<longrightarrow>
            (\<exists>env. comment_list db c p t m pg ps e s x = Inr env))"
proof (intro conjI allI impI)
  show "set (selected_fields s x) =
      (if s = Some [] then spec_projection_keys None x else spec_projection_keys s x)"
    by (auto simp: set_selected_fields spec_projection_keys_def split: option.splits)
next
  fix env
  assume "comment_list db c p t m pg ps e s x = Inr env"
  from comment_list_InrD [OF this] obtain rows where
    rows: "paginate pg ps (order_by_timestamp_desc db (where_clauses c p t m e (comments db)))
             = Inr rows"
    and its: "items env = map (\<lambda>r. clean (row_dict db (selected_fields s x) r)) rows"
    by auto
  from rows have "page_rows db c p t m e pg ps = Inr rows"
    by (simp add: page_rows_def)
  moreover from its have "length (items env) = length rows"
    by simp
  moreover from its assms have "\<forall>i < length rows.
       fst ` set (items env ! i) =
         {k \<in> set (selected_fields s x). stored_value db (rows ! i) k \<noteq> None}
       \<and> (\<forall>k. map_of (items env ! i) k =
             (if k \<in> set (selected_fields s x) then stored_value db (rows ! i) k else None))"
    by (simp add: keys_of_item map_of_item)
  ultimately show "\<exists>rows. page_rows db c p t m e pg ps = Inr rows
       \<and> length (items env) = length rows
       \<and> (\<forall>i < length rows.
             fst ` set (items env ! i) =
               {k \<in> set (selected_fields s x). stored_value db (rows ! i) k \<noteq> None}
             \<and> (\<forall>k. map_of (items env ! i) k =
                   (if k \<in> set (selected_fields s x)
                    then stored_value db (rows ! i) k else None)))"
    by blast
next
  assume "ps \<noteq> 0 \<and> sql_int ps \<and> sql_int (page_offset pg ps)"
  then show "\<exists>env. comment_list db c p t m pg ps e s x = Inr env"
    by (simp add: comment_list_returns)
qed

theorem comment_list_projection_witness:
  "\<exists>env. comment_list scenario_db None None False None 1 50 None
            (Some [''comment_id'', ''parent_id'', ''signature'']) (Some [''signature'']) = Inr env
      \<and> fst ` set (items env ! 0) = {''comment_id'', ''parent_id''}
      \<and> fst ` set (items env ! 1) = {''comment_id''}"
proof -
  let ?s = "Some [''comment_id'', ''parent_id'', ''signature'']" and ?x = "Some [''signature'']"
  have r: "(50::int) \<noteq> 0 \<and> sql_int 50 \<and> sql_int (page_offset 1 50)"
    by (simp add: sql_int_def page_offset_def)
  have sel: "selected_fields ?s ?x = [''comment_id'', ''parent_id'']"
    by (simp add: selected_fields_def FIELDS_keys_def FIELDS_def)
  then have ne: "selected_fields ?s ?x \<noteq> []" by simp
  have rows: "page_rows scenario_db None None False None None 1 50 = Inr [c2, c1]"
    by (simp add: page_rows_def scenario_eval)
  have sv: "stored_value scenario_db c2 ''comment_id'' = Some (VText ''c2'')"
       "stored_value scenario_db c2 ''parent_id'' = Some (VText ''c1'')"
       "stored_value scenario_db c1 ''comment_id'' = Some (VText ''c1'')"
       "stored_value scenario_db c1 ''parent_id'' = None"
    by (simp_all add: stored_value_def FIELDS_def c1_def c2_def)
  note inst = comment_list_projection [OF ne, of scenario_db None None False None 1 50 None]
  from inst [THEN conjunct2, THEN conjunct2, THEN mp, OF r]
  obtain env where env:
    "comment_list scenario_db None None False None 1 50 None ?s ?x = Inr env"
    by blast
  from inst [THEN conjunct2, THEN conjunct1, THEN spec, THEN mp, OF env]
  show ?thesis
  proof (elim exE conjE, goal_cases)
    case (1 rs)
    from 1(1) rows have rs: "rs = [c2, c1]"
      by simp
    from 1(3) rs have "fst ` set (items env ! 0) =
        {k \<in> set (selected_fields ?s ?x). stored_value scenario_db ([c2, c1] ! 0) k \<noteq> None}"
      by simp
    then have i0: "fst ` set (items env ! 0) = {''comment_id'', ''parent_id''}"
      unfolding sel Collect_two by (simp add: sv insert_commute)
    from 1(3) rs have "fst ` set (items env ! 1) =
        {k \<in> set (selected_fields ?s ?x). stored_value scenario_db ([c2, c1] ! 1) k \<noteq> None}"
      by simp
    then have i1: "fst ` set (items env ! 1) = {''comment_id''}"
      unfolding sel Collect_two by (simp add: sv)
    from env i0 i1 show ?case
      by blast
  qed
qed

subsection \<open>The parent filter\<close>

lemma set_page_subset: "set (if b then drop n q else take k (drop n q)) \<subseteq> set q"
  by (auto dest: in_set_takeD in_set_dropD)

lemma where_clauses_subset: "set (where_clauses c p t m e q) \<subseteq> set q"
  by (auto simp: where_clauses_def Let_def split: option.splits if_splits)

lemma where_clauses_empty_parent:
  "where_clauses c (Some []) t m e q = where_clauses c None t m e q"
  by (simp add: where_clauses_def)

text \<open>
  Claim C5, as stated: for every non-null \<open>parent_id\<close>, \<open>comment_list\<close> returns without
  raising, and the rows counted are those whose parent equals it.  It fails for the
  empty string, which is not null: the source tests \<open>if parent_id:\<close>, applies no
  filter and counts every row, although no stored row has the empty string as parent.
  It also fails where the offset is not a 64-bit integer: the call raises.
\<close>

theorem comment_list_parent_filter_counterexample:
  "\<not> (\<forall>env. comment_list scenario_db None (Some []) False None 1 50 None None None = Inr env
         \<longrightarrow> total_items env =
               int (length (filter (\<lambda>r. parent r = Some []) (comments scenario_db))))
   \<and> comment_list scenario_db None (Some ''c1'') False None 3 (2 ^ 62) None None None
       = Inl OverflowError"
proof
  show "\<not> (\<forall>env. comment_list scenario_db None (Some []) False None 1 50 None None None = Inr env
         \<longrightarrow> total_items env =
               int (length (filter (\<lambda>r. parent r = Some []) (comments scenario_db))))"
    by (simp add: scenario_eval)
  show "comment_list scenario_db None (Some ''c1'') False None 3 (2 ^ 62) None None None
       = Inl OverflowError"
    by (rule comment_list_overflow) (simp add: sql_int_def page_offset_def)
qed

text \<open>
  Claim C5, amended.  For every non-empty \<open>parent_id\<close>, a page size other than 0 and a
  page size and offset that are 64-bit integers, \<open>comment_list\<close> returns an envelope
  (it does not raise) whose rows are exactly the stored comments with that parent
  among those passing the other filters: they are what \<open>total_items\<close> counts and what
  the page is cut from, in the order the storage engine gives them.  An empty
  \<open>parent_id\<close> is treated as an absent one: it adds no filter.
\<close>

theorem comment_list_parent_filter:
  "(p \<noteq> [] \<and> ps \<noteq> 0 \<and> sql_int ps \<and> sql_int (page_offset pg ps) \<longrightarrow>
      (\<exists>env rows. comment_list db c (Some p) t m pg ps e s x = Inr env
         \<and> total_items env =
             int (length (filter (\<lambda>r. parent r = Some p)
                            (where_clauses c None t m e (comments db))))
         \<and> paginate pg ps
             (order_by_timestamp_desc db
                (filter (\<lambda>r. parent r = Some p) (where_clauses c None t m e (comments db))))
             = Inr rows
         \<and> items env = map (\<lambda>r. clean (row_dict db (selected_fields s x) r)) rows
         \<and> set rows \<subseteq> {r \<in> set (comments db). parent r = Some p}))
   \<and> comment_list db c (Some []) t m pg ps e s x = comment_list db c None t m pg ps e s x"
proof (intro conjI impI)
  assume a: "p \<noteq> [] \<and> ps \<noteq> 0 \<and> sql_int ps \<and> sql_int (page_offset pg ps)"
  let ?q = "filter (\<lambda>r. parent r = Some p) (where_clauses c None t m e (comments db))"
  let ?rows = "if ps < 0 then drop (nat (page_offset pg ps)) (order_by_timestamp_desc db ?q)
               else take (nat ps) (drop (nat (page_offset pg ps)) (order_by_timestamp_desc db ?q))"
  from a have w: "where_clauses c (Some p) t m e (comments db) = ?q"
    by (simp add: where_clauses_parent)
  from a have pag: "paginate pg ps (order_by_timestamp_desc db ?q) = Inr ?rows"
    by (simp add: paginate_Inr)
  have "set ?rows \<subseteq> set (order_by_timestamp_desc db ?q)"
    by (rule set_page_subset)
  also have "\<dots> \<subseteq> {r \<in> set (comments db). parent r = Some p}"
    using where_clauses_subset [of c None t m e "comments db"] by auto
  finally have sub: "set ?rows \<subseteq> {r \<in> set (comments db). parent r = Some p}" .
  from a have nz: "ps \<noteq> 0" by simp
  have "comment_list db c (Some p) t m pg ps e s x =
      Inr \<lparr>page = pg, page_size = ps,
           total_pages = - ((- int (length ?q)) div ps),
           total_items = int (length ?q),
           items = map (\<lambda>r. clean (row_dict db (selected_fields s x) r)) ?rows,
           has_hidden_comments = (m = Some ''hidden'')\<rparr>"
    using comment_list_Inr [OF nz, of pg db c "Some p" t m e ?rows s x] pag
    by (simp only: w)
  with pag sub show "\<exists>env rows. comment_list db c (Some p) t m pg ps e s x = Inr env
         \<and> total_items env = int (length ?q)
         \<and> paginate pg ps (order_by_timestamp_desc db ?q) = Inr rows
         \<and> items env = map (\<lambda>r. clean (row_dict db (selected_fields s x) r)) rows
         \<and> set rows \<subseteq> {r \<in> set (comments db). parent r = Some p}"
    by simp
next
  show "comment_list db c (Some []) t m pg ps e s x = comment_list db c None t m pg ps e s x"
    by (simp add: comment_list_def where_clauses_empty_parent)
qed

theorem comment_list_parent_filter_witness:
  "\<exists>env. comment_list scenario_db None (Some ''c1'') False None 1 50 None
            (Some [''comment_id'']) None = Inr env
      \<and> total_items env = 1 \<and> items env = [[(''comment_id'', VText ''c2'')]]"
proof -
  have a: "''c1'' \<noteq> [] \<and> (50::int) \<noteq> 0 \<and> sql_int 50 \<and> sql_int (page_offset 1 50)"
    by (simp add: sql_int_def page_offset_def)
  have f: "filter (\<lambda>r. parent r = Some ''c1'')
          (where_clauses None None False None None (comments scenario_db)) = [c2]"
    by (simp add: where_clauses_def scenario_db_def c1_def c2_def)
  have pg: "paginate 1 50 (order_by_timestamp_desc scenario_db [c2]) = Inr [c2]"
    by (simp add: scenario_eval)
  have it: "map (\<lambda>r. clean (row_dict scenario_db (selected_fields (Some [''comment_id'']) None) r))
       [c2] = [[(''comment_id'', VText ''c2'')]]"
    by (simp add: scenario_eval)
  from comment_list_parent_filter
         [of "''c1''" 50 1 scenario_db None False None None "Some [''comment_id'']" None,
          THEN conjunct1, THEN mp, OF a]
  show ?thesis
  proof (elim exE conjE, goal_cases)
    case (1 env rows)
    from 1(3) f pg have "rows = [c2]"
      by simp
    with 1(1,2,4) f it show ?case
      by auto
  qed
qed

subsection \<open>The scenario of the identifier listing\<close>

text \<open>
  Claim C3, as stated: \<open>get_comment_ids(claim_id=k1, flattened=true)\<close> on the store of
  \<open>c1\<close> and \<open>c2\<close> returns the items \<open>[c2, c1]\<close> and the replies
  \<open>[(c2, c1), (c1, absent)]\<close>.  It does not.
\<close>

theorem get_comment_ids_scenario_counterexample:
  "\<not> (\<exists>env. get_comment_ids scenario_db (Some ''k1'') None 1 50 True =
          Inr (Flattened env [(VText ''c2'', Some (VText ''c1'')), (VText ''c1'', None)])
        \<and> items env = [VText ''c2'', VText ''c1''])"
  by (simp add: get_comment_ids_def scenario_eval)

text \<open>
  Claim C3, amended.  Without a \<open>parent_id\<close> the call passes \<open>top_level = True\<close>, so on
  that store it lists the top-level comment only: items \<open>[c1]\<close>, replies
  \<open>[(c1, absent)]\<close>, one item in total.
\<close>

theorem get_comment_ids_scenario:
  "get_comment_ids scenario_db (Some ''k1'') None 1 50 True =
     Inr (Flattened
           \<lparr>page = 1, page_size = 50, total_pages = 1, total_items = 1,
            items = [VText ''c1''], has_hidden_comments = False\<rparr>
           [(VText ''c1'', None)])"
  by (simp add: get_comment_ids_def scenario_eval)

subsection \<open>The single-comment fetch\<close>

lemma where_clauses_expression: "where_clauses None None t None (Some f) q = filter f q"
  by (simp add: where_clauses_def)

lemma order_by_Nil [simp]: "order_by_timestamp_desc db [] = []"
  by (simp add: order_by_timestamp_desc_def)

lemma get_comment_no_row:
  assumes "filter (\<lambda>r. comment_id r = cid) (comments db) = []"
  shows "get_comment db cid = Inl IndexError"
proof -
  have one: "(1::int) \<noteq> 0" by simp
  have "paginate 1 1 (order_by_timestamp_desc db
          (where_clauses None None False None (Some (\<lambda>r. comment_id r = cid)) (comments db)))
        = Inr []"
    using assms by (simp add: where_clauses_expression paginate_def page_offset_def sql_int_def)
  from comment_list_Inr [OF one this] show ?thesis
    by (simp add: get_comment_def pop_def)
qed

text \<open>
  Claim C7, as stated: the failure of \<open>get_comment\<close> on an identifier without a row
  reaches the caller as \<open>INVALID_PARAMS\<close> or as a dedicated not-found code.  The
  exception raised is \<open>IndexError\<close>, and the \<open>except\<close> clauses of the dispatcher give
  it no code but the catch-all \<open>INTERNAL\<close>.
\<close>

theorem get_comment_missing_counterexample:
  "\<not> (\<exists>e. get_comment scenario_db ''c9'' = Inl e \<and> except_error e \<noteq> INTERNAL)"
proof -
  have "filter (\<lambda>r. comment_id r = ''c9'') (comments scenario_db) = []"
    by (simp add: scenario_db_def c1_def c2_def)
  then have "get_comment scenario_db ''c9'' = Inl IndexError"
    by (rule get_comment_no_row)
  then show ?thesis
    by (simp add: except_error_def)
qed

text \<open>
  Claim C7, amended.  For every identifier without a stored row, \<open>get_comment\<close> raises
  \<open>IndexError\<close> (it pops from the empty item list) instead of returning a value; the
  dispatcher classifies an \<open>IndexError\<close> of a handler as \<open>INTERNAL\<close>, and
  \<open>get_comment\<close> is not among its registered methods.
\<close>

theorem get_comment_missing:
  assumes "\<forall>r \<in> set (comments db). comment_id r \<noteq> cid"
  shows "get_comment db cid = Inl IndexError
       \<and> except_error IndexError = INTERNAL
       \<and> map_of (METHODS ext) ''get_comment'' = None"
proof -
  from assms have "filter (\<lambda>r. comment_id r = cid) (comments db) = []"
    by (simp add: filter_empty_conv)
  then have "get_comment db cid = Inl IndexError"
    by (rule get_comment_no_row)
  moreover have "except_error IndexError = INTERNAL"
    by (simp add: except_error_def)
  moreover have "map_of (METHODS ext) ''get_comment'' = None"
    by (simp add: METHODS_def)
  ultimately show ?thesis
    by simp
qed

theorem get_comment_missing_witness:
  "get_comment scenario_db ''c9'' = Inl IndexError
     \<and> except_error IndexError = INTERNAL
     \<and> map_of (METHODS example_externals) ''get_comment'' = None"
proof -
  have "\<forall>r \<in> set (comments scenario_db). comment_id r \<noteq> ''c9''"
    by (simp add: scenario_db_def c1_def c2_def)
  then show ?thesis
    by (rule get_comment_missing)
qed

section \<open>Properties of the write gateway and the dispatcher\<close>

subsection \<open>The authorization gate of delete\<close>

text \<open>
  Claim C6.  When the authenticity predicate answers false, \<open>delete_comment_if_authorized\<close>
  returns the normal result \<open>{deleted: false}\<close> and leaves the application state as
  it was: the store is unchanged and nothing is spawned on the scheduler.  The state
  changes only when the predicate answers true.
\<close>

theorem delete_comment_unauthorized:
  "(\<not> is_authentic_delete_signal ext a c n i s \<longrightarrow>
      delete_comment_if_authorized ext a c n i s = (Inr (JObj [(''deleted'', JBool False)]), a))
   \<and> (snd (delete_comment_if_authorized ext a c n i s) \<noteq> a \<longrightarrow>
        is_authentic_delete_signal ext a c n i s)"
  by (simp add: delete_comment_if_authorized_def Let_def)

theorem delete_comment_unauthorized_witness:
  "delete_comment_if_authorized example_externals example_app
       (JStr ''c1'') (JStr ''@name'') (JStr ''ch'') (JStr ''forged'')
     = (Inr (JObj [(''deleted'', JBool False)]), example_app)
   \<and> snd (delete_comment_if_authorized example_externals example_app
       (JStr ''c1'') (JStr ''@name'') (JStr ''ch'') (JStr ''valid'')) \<noteq> example_app
   \<and> is_authentic_delete_signal example_externals example_app
       (JStr ''c1'') (JStr ''@name'') (JStr ''ch'') (JStr ''valid'')"
proof -
  have no: "\<not> is_authentic_delete_signal example_externals example_app
       (JStr ''c1'') (JStr ''@name'') (JStr ''ch'') (JStr ''forged'')"
    by (simp add: example_externals_def)
  have ch: "snd (delete_comment_if_authorized example_externals example_app
       (JStr ''c1'') (JStr ''@name'') (JStr ''ch'') (JStr ''valid'')) \<noteq> example_app"
    by (simp add: delete_comment_if_authorized_def example_externals_def example_app_def)
  note a = delete_comment_unauthorized [of example_externals example_app
       "JStr ''c1''" "JStr ''@name''" "JStr ''ch''" "JStr ''forged''",
       THEN conjunct1, THEN mp, OF no]
  note b = delete_comment_unauthorized [of example_externals example_app
       "JStr ''c1''" "JStr ''@name''" "JStr ''ch''" "JStr ''valid''",
       THEN conjunct2, THEN mp, OF ch]
  from a ch b show ?thesis
    by (intro conjI)
qed

subsection \<open>Batches\<close>

lemma process_json_envelope:
  assumes "request_envelope ext part"
  shows "\<exists>r a'. process_json ext a part = (Inr r, a') \<and> id' r = request_id part"
proof -
  from assms obtain kv i m where part: "part = JObj kv"
    and i: "map_of kv ''id'' = Some i" and m: "map_of kv ''method'' = Some (JStr m)"
    by (auto simp: request_envelope_def split: json.splits option.splits)
  show ?thesis
  proof (cases "map_of (METHODS ext) m")
    case None
    with part i m show ?thesis
      by (simp add: process_json_def request_id_def)
  next
    case (Some h)
    let ?p = "case map_of kv ''params'' of None \<Rightarrow> JObj [] | Some p \<Rightarrow> p"
    from assms part i m Some obtain q where q: "clean_input_params ext ?p = Inr q"
      by (cases "clean_input_params ext ?p") (auto simp: request_envelope_def)
    obtain res a' where h: "h a q = (res, a')"
      by (cases "h a q")
    with part i m Some q show ?thesis
      by (cases res) (simp_all add: process_json_def request_id_def Let_def)
  qed
qed

lemma process_parts_envelopes:
  assumes "\<forall>part \<in> set parts. request_envelope ext part"
  shows "\<exists>rs a'. process_parts ext a parts = (Inr rs, a') \<and> map id' rs = map request_id parts"
  using assms
proof (induction parts arbitrary: a)
  case Nil
  then show ?case by simp
next
  case (Cons part parts)
  from Cons.prems have "request_envelope ext part"
    by simp
  then obtain r a1 where r: "process_json ext a part = (Inr r, a1)" "id' r = request_id part"
    using process_json_envelope by blast
  from Cons.prems have "\<forall>p \<in> set parts. request_envelope ext p"
    by simp
  then obtain rs a2 where rs: "process_parts ext a1 parts = (Inr rs, a2)"
      "map id' rs = map request_id parts"
    using Cons.IH by blast
  from r rs show ?case
    by simp
qed

text \<open>
  Claim C8.  For a batch of request envelopes the endpoint answers with an array of
  as many responses, in the same order, each carrying the identifier of its request;
  a single request envelope gets a single response with its identifier.
\<close>

theorem batch_order:
  "((\<forall>part \<in> set parts. request_envelope ext part) \<longrightarrow>
      (\<exists>rs a'. api_endpoint ext a (Inr (JArr parts)) = (Batch rs, a')
         \<and> length rs = length parts
         \<and> (\<forall>i < length parts. id' (rs ! i) = request_id (parts ! i))))
   \<and> (request_envelope ext (JObj kv) \<longrightarrow>
        (\<exists>r a'. api_endpoint ext a (Inr (JObj kv)) = (Single r, a')
           \<and> id' r = request_id (JObj kv)))"
proof (intro conjI impI)
  assume "\<forall>part \<in> set parts. request_envelope ext part"
  then obtain rs a' where rs: "process_parts ext a parts = (Inr rs, a')"
      "map id' rs = map request_id parts"
    using process_parts_envelopes by blast
  from rs(2) have len: "length rs = length parts"
    by (rule map_eq_imp_length_eq)
  have "\<forall>i < length parts. id' (rs ! i) = request_id (parts ! i)"
  proof (intro allI impI)
    fix i assume "i < length parts"
    with len have "map id' rs ! i = id' (rs ! i)" "map request_id parts ! i = request_id (parts ! i)"
      by simp_all
    with rs(2) show "id' (rs ! i) = request_id (parts ! i)"
      by simp
  qed
  with rs(1) len show "\<exists>rs a'. api_endpoint ext a (Inr (JArr parts)) = (Batch rs, a')
         \<and> length rs = length parts
         \<and> (\<forall>i < length parts. id' (rs ! i) = request_id (parts ! i))"
    by (simp add: api_endpoint_def)
next
  assume "request_envelope ext (JObj kv)"
  then obtain r a' where "process_json ext a (JObj kv) = (Inr r, a')" "id' r = request_id (JObj kv)"
    using process_json_envelope by blast
  then show "\<exists>r a'. api_endpoint ext a (Inr (JObj kv)) = (Single r, a')
           \<and> id' r = request_id (JObj kv)"
    by (simp add: api_endpoint_def)
qed

theorem batch_order_witness:
  "(\<exists>rs a'. api_endpoint example_externals example_app
        (Inr (JArr [JObj [(''id'', JInt 1), (''method'', JStr ''ping'')],
                    JObj [(''id'', JInt 2), (''method'', JStr ''nope'')]])) = (Batch rs, a')
      \<and> length rs = 2 \<and> id' (rs ! 0) = Some (JInt 1) \<and> id' (rs ! 1) = Some (JInt 2))
   \<and> (\<exists>r a'. api_endpoint example_externals example_app
          (Inr (JObj [(''id'', JInt 1), (''method'', JStr ''ping'')])) = (Single r, a')
        \<and> id' r = Some (JInt 1))"
proof -
  let ?p1 = "JObj [(''id'', JInt 1), (''method'', JStr ''ping'')]"
  let ?p2 = "JObj [(''id'', JInt 2), (''method'', JStr ''nope'')]"
  have e1: "request_envelope example_externals ?p1"
    by (simp add: request_envelope_def METHODS_def example_externals_def)
  have e2: "request_envelope example_externals ?p2"
    by (simp add: request_envelope_def METHODS_def example_externals_def)
  from e1 e2 have all: "\<forall>part \<in> set [?p1, ?p2]. request_envelope example_externals part"
    by simp
  have ids: "request_id ?p1 = Some (JInt 1)" "request_id ?p2 = Some (JInt 2)"
    by (simp_all add: request_id_def)
  note batch = batch_order [of "[?p1, ?p2]" example_externals example_app,
      THEN conjunct1, THEN mp, OF all]
  note single = batch_order [of _ example_externals example_app
      "[(''id'', JInt 1), (''method'', JStr ''ping'')]", THEN conjunct2, THEN mp, OF e1]
  from batch have "\<exists>rs a'. api_endpoint example_externals example_app (Inr (JArr [?p1, ?p2]))
        = (Batch rs, a')
      \<and> length rs = 2 \<and> id' (rs ! 0) = Some (JInt 1) \<and> id' (rs ! 1) = Some (JInt 2)"
    by (elim exE conjE) (simp add: ids)
  moreover from single have "\<exists>r a'. api_endpoint example_externals example_app (Inr ?p1)
        = (Single r, a') \<and> id' r = Some (JInt 1)"
    by (simp add: ids)
  ultimately show ?thesis
    by (intro conjI)
qed

subsection \<open>Requests without an identifier\<close>

lemma process_json_no_id:
  assumes "request_id part = None"
  shows "process_json ext a part = (Inl KeyError, a) \<or> process_json ext a part = (Inl TypeError, a)"
  using assms by (cases part) (simp_all add: process_json_def request_id_def)

lemma process_json_not_decode:
  assumes "\<forall>p. clean_input_params ext p \<noteq> Inl JSONDecodeError"
  shows "fst (process_json ext a part) \<noteq> Inl JSONDecodeError"
proof (cases part)
  case (JObj kv)
  show ?thesis
  proof (cases "map_of kv ''id''")
    case None
    with JObj show ?thesis by (simp add: process_json_def)
  next
    case (Some i)
    show ?thesis
    proof (cases "map_of kv ''method''")
      case None
      with JObj Some show ?thesis by (simp add: process_json_def)
    next
      case m: (Some mv)
      show ?thesis
      proof (cases mv)
        case (JStr name)
        show ?thesis
        proof (cases "map_of (METHODS ext) name")
          case None
          with JObj Some m JStr show ?thesis by (simp add: process_json_def)
        next
          case h: (Some h)
          let ?p = "case map_of kv ''params'' of None \<Rightarrow> JObj [] | Some p \<Rightarrow> p"
          show ?thesis
          proof (cases "clean_input_params ext ?p")
            case (Inl e)
            with assms have "e \<noteq> JSONDecodeError" by metis
            with JObj Some m JStr h Inl show ?thesis
              by (simp add: process_json_def)
          next
            case (Inr q)
            obtain res a' where "h a q = (res, a')" by (cases "h a q")
            with JObj Some m JStr h Inr show ?thesis
              by (cases res) (simp_all add: process_json_def)
          qed
        qed
      qed (use JObj Some m in \<open>simp_all add: process_json_def\<close>)
    qed
  qed
qed (simp_all add: process_json_def)

lemma process_parts_bad:
  assumes "\<forall>p. clean_input_params ext p \<noteq> Inl JSONDecodeError"
    and "\<exists>part \<in> set parts. request_id part = None"
  shows "\<exists>e a'. process_parts ext a parts = (Inl e, a') \<and> e \<noteq> JSONDecodeError"
  using assms(2)
proof (induction parts arbitrary: a)
  case Nil
  then show ?case by simp
next
  case (Cons part parts)
  obtain res a1 where pj: "process_json ext a part = (res, a1)"
    by (cases "process_json ext a part")
  show ?case
  proof (cases res)
    case (Inl e)
    with pj process_json_not_decode [OF assms(1), of a part] have "e \<noteq> JSONDecodeError"
      by auto
    with pj Inl show ?thesis by simp
  next
    case (Inr r)
    with pj process_json_no_id [of part ext a] have "request_id part \<noteq> None"
      by auto
    with Cons.prems have "\<exists>p \<in> set parts. request_id p = None"
      by auto
    then obtain e a2 where "process_parts ext a1 parts = (Inl e, a2)" "e \<noteq> JSONDecodeError"
      using Cons.IH by blast
    with pj Inr show ?thesis by simp
  qed
qed

text \<open>
  Claim C10.  A decoded body that is an object without the key \<open>id\<close> gets the single
  response \<open>{error: INVALID_REQUEST}\<close>, which has no identifier; so does a batch with
  at least one element that is not an object with the key \<open>id\<close>, whatever the other
  elements are (the sanitiser being assumed not to raise a JSON decoding error).
\<close>

theorem missing_id_invalid_request:
  "(map_of kv ''id'' = None \<longrightarrow>
      fst (api_endpoint ext a (Inr (JObj kv))) = Single (error_response INVALID_REQUEST))
   \<and> ((\<forall>p. clean_input_params ext p \<noteq> Inl JSONDecodeError)
        \<and> (\<exists>part \<in> set parts. request_id part = None) \<longrightarrow>
        fst (api_endpoint ext a (Inr (JArr parts))) = Single (error_response INVALID_REQUEST))"
proof (intro conjI impI)
  assume "map_of kv ''id'' = None"
  then show "fst (api_endpoint ext a (Inr (JObj kv))) = Single (error_response INVALID_REQUEST)"
    by (simp add: api_endpoint_def process_json_def endpoint_except_def)
next
  assume "(\<forall>p. clean_input_params ext p \<noteq> Inl JSONDecodeError)
        \<and> (\<exists>part \<in> set parts. request_id part = None)"
  then obtain e a' where "process_parts ext a parts = (Inl e, a')" "e \<noteq> JSONDecodeError"
    using process_parts_bad by blast
  then show "fst (api_endpoint ext a (Inr (JArr parts))) = Single (error_response INVALID_REQUEST)"
    by (simp add: api_endpoint_def endpoint_except_def)
qed

theorem missing_id_invalid_request_witness:
  "fst (api_endpoint example_externals example_app (Inr (JObj [(''method'', JStr ''ping'')])))
     = Single (error_response INVALID_REQUEST)
   \<and> fst (api_endpoint example_externals example_app
            (Inr (JArr [JObj [(''id'', JInt 1), (''method'', JStr ''ping'')], JInt 5])))
     = Single (error_response INVALID_REQUEST)"
proof -
  have noid: "map_of [(''method'', JStr ''ping'')] ''id'' = None"
    by simp
  have san: "\<forall>p. clean_input_params example_externals p \<noteq> Inl JSONDecodeError"
    by (simp add: example_externals_def)
  have bad: "\<exists>part \<in> set [JObj [(''id'', JInt 1), (''method'', JStr ''ping'')], JInt 5].
               request_id part = None"
    by (simp add: request_id_def)
  note one = missing_id_invalid_request
      [of "[(''method'', JStr ''ping'')]" example_externals example_app,
       THEN conjunct1, THEN mp, OF noid]
  note many = missing_id_invalid_request
      [of _ example_externals example_app
          "[JObj [(''id'', JInt 1), (''method'', JStr ''ping'')], JInt 5]",
       THEN conjunct2, THEN mp, OF conjI [OF san bad]]
  from one many show ?thesis
    by (intro conjI)
qed

end
